theory Spec2Isabelle
  imports Complex_Main
begin

section \<open>SWORDXplorer: a shallow embedding of \<^verbatim>\<open>SWORDXplorer.py\<close>\<close>

text \<open>
  The script is a Streamlit page: it loads an uploaded shapefile into the session, lets the
  user pick a column and a value, and downloads one time series per matching reach from
  the Hydrocron service. The model keeps the script's names. Calls into libraries
  (\<^verbatim>\<open>requests\<close>, \<^verbatim>\<open>pandas\<close>, \<^verbatim>\<open>geopandas\<close>, the wall clock) are
  oracles gathered in a record; an exception is a value of \<open>exn\<close>; the user interface and
  \<^verbatim>\<open>time.sleep\<close> leave events in a trace.

  Idealisations: the strings of the data set are ASCII (\<open>isalnum\<close> is the ASCII part of
  Python's \<^verbatim>\<open>str.isalnum\<close>), a header value is a Latin-1 string, one \<open>char\<close> for each
  code point, as \<^verbatim>\<open>requests\<close> decodes it; numeric cells and JSON numbers are integers;
  paths are joined the POSIX way and name entries of a flat store whose writes succeed;
  Streamlit calls do not raise.
\<close>

subsection \<open>Python values\<close>

datatype exn = KeyError | TypeError | ValueError | AttributeError | OSError | OverflowError
  | RequestException | HTTPError int | JSONDecodeError | ParserError

text \<open>A cell of a data frame: missing (\<^verbatim>\<open>NaN\<close>, \<^verbatim>\<open>None\<close>, \<^verbatim>\<open>NaT\<close>), a number or a string.\<close>

datatype cell = Null | IntCell int | StrCell string

fun digits :: "nat \<Rightarrow> string" where
  "digits n = (if n < 10 then [''0123456789'' ! n]
               else digits (n div 10) @ [''0123456789'' ! (n mod 10)])"

declare digits.simps [simp del]

text \<open>\<^verbatim>\<open>str(x)\<close>, as \<^verbatim>\<open>astype(str)\<close> applies it to each cell.\<close>

definition py_str :: "cell \<Rightarrow> string" where
  "py_str c = (case c of
       Null \<Rightarrow> ''nan''
     | IntCell n \<Rightarrow> (if n < 0 then CHR ''-'' # digits (nat (- n)) else digits (nat n))
     | StrCell s \<Rightarrow> s)"

text \<open>
  \<^verbatim>\<open>int(s)\<close> on a string of code points below 256: surrounding white space (what
  \<^verbatim>\<open>str.isspace\<close> accepts there, the no-break space included), a sign, decimal digits
  with single underscores between them, at most 4300 digits (the default of
  \<^verbatim>\<open>sys.get_int_max_str_digits\<close>). \<open>None\<close> stands for the \<^verbatim>\<open>ValueError\<close>.
\<close>

definition is_space :: "char \<Rightarrow> bool" where
  "is_space c \<longleftrightarrow>
     c \<in> set [CHR '' '', CHR 0x09, CHR 0x0A, CHR 0x0B, CHR 0x0C, CHR 0x0D,
              CHR 0x1C, CHR 0x1D, CHR 0x1E, CHR 0x1F, CHR 0x85, CHR 0xA0]"

definition strip :: "string \<Rightarrow> string" where
  "strip s = rev (dropWhile is_space (rev (dropWhile is_space s)))"

definition is_digit :: "char \<Rightarrow> bool" where
  "is_digit c \<longleftrightarrow> c \<in> set ''0123456789''"

definition digit_val :: "char \<Rightarrow> int" where
  "digit_val c = int (length (takeWhile (\<lambda>d. d \<noteq> c) ''0123456789''))"

fun digit_run :: "string \<Rightarrow> bool" where
  "digit_run [] = False"
| "digit_run [c] = is_digit c"
| "digit_run (c # d # r) =
     (is_digit c \<and> (if d = CHR ''_'' then digit_run r else digit_run (d # r)))"

definition py_int :: "string \<Rightarrow> int option" where
  "py_int s =
     (let t = strip s;
          neg = (case t of c # r \<Rightarrow> c = CHR ''-'' | [] \<Rightarrow> False);
          ds = (case t of c # r \<Rightarrow> if c = CHR ''-'' \<or> c = CHR ''+'' then r else t | [] \<Rightarrow> t);
          v = foldl (\<lambda>acc c. 10 * acc + digit_val c) 0 (filter is_digit ds)
      in if digit_run ds \<and> length (filter is_digit ds) \<le> 4300
         then Some (if neg then - v else v) else None)"

text \<open>The value \<^verbatim>\<open>resp.json()\<close> returns; an object is the dictionary it was parsed into.\<close>

datatype json = JNull | JBool bool | JNum int | JStr string
  | JArr "json list" | JObj "(string \<times> json) list"

fun truthy :: "json \<Rightarrow> bool" where
  "truthy JNull = False"
| "truthy (JBool b) = b"
| "truthy (JNum n) = (n \<noteq> 0)"
| "truthy (JStr s) = (s \<noteq> [])"
| "truthy (JArr xs) = (xs \<noteq> [])"
| "truthy (JObj kvs) = (kvs \<noteq> [])"

text \<open>\<^verbatim>\<open>x.get(key, default)\<close>: only a dictionary has the method.\<close>

fun dict_get :: "json \<Rightarrow> string \<Rightarrow> json \<Rightarrow> exn + json" where
  "dict_get (JObj kvs) k d = Inr (case map_of kvs k of None \<Rightarrow> d | Some v \<Rightarrow> v)"
| "dict_get _ k d = Inl AttributeError"

definition endswith :: "string \<Rightarrow> string \<Rightarrow> bool" where
  "endswith s suf \<longleftrightarrow> length suf \<le> length s \<and> drop (length s - length suf) s = suf"

text \<open>\<^verbatim>\<open>os.path.join(a, b)\<close> for two components.\<close>

definition path_join :: "string \<Rightarrow> string \<Rightarrow> string" where
  "path_join a b =
     (if b \<noteq> [] \<and> hd b = CHR ''/'' then b
      else if a = [] \<or> last a = CHR ''/'' then a @ b
      else a @ ''/'' @ b)"

fun comma_join :: "string list \<Rightarrow> string" where
  "comma_join [] = []"
| "comma_join [x] = x"
| "comma_join (x # y # zs) = x @ '','' @ comma_join (y # zs)"

subsection \<open>Data frames\<close>

text \<open>
  A row maps column names to cells; a column the row does not mention is missing there.
  This is how \<^verbatim>\<open>pd.concat\<close> fills the columns a table lacks.
\<close>

type_synonym row = "(string \<times> cell) list"

record table =
  columns :: "string list"
  rows :: "row list"

definition cell_of :: "row \<Rightarrow> string \<Rightarrow> cell" where
  "cell_of r c = (case map_of r c of None \<Rightarrow> Null | Some v \<Rightarrow> v)"

text \<open>\<^verbatim>\<open>df[c] == v\<close> on one row: a missing cell equals nothing.\<close>

definition cell_eq :: "cell \<Rightarrow> cell \<Rightarrow> bool" where
  "cell_eq a b \<longleftrightarrow> a \<noteq> Null \<and> a = b"

text \<open>\<^verbatim>\<open>df[df[c] == v]\<close>\<close>

definition select_rows :: "table \<Rightarrow> string \<Rightarrow> cell \<Rightarrow> exn + table" where
  "select_rows df c v =
     (if c \<in> set (columns df)
      then Inr (df\<lparr>rows := filter (\<lambda>r. cell_eq (cell_of r c) v) (rows df)\<rparr>)
      else Inl KeyError)"

text \<open>\<^verbatim>\<open>df[c]\<close>\<close>

definition get_column :: "table \<Rightarrow> string \<Rightarrow> exn + cell list" where
  "get_column df c =
     (if c \<in> set (columns df) then Inr (map (\<lambda>r. cell_of r c) (rows df)) else Inl KeyError)"

definition dropna :: "cell list \<Rightarrow> cell list" where
  "dropna cs = filter (\<lambda>c. c \<noteq> Null) cs"

text \<open>Lines 147-148: the identifiers of the reaches that match the filter.\<close>

definition reach_ids_of :: "table \<Rightarrow> string \<Rightarrow> cell \<Rightarrow> exn + string list" where
  "reach_ids_of df_geo filter_column filter_value =
     (case select_rows df_geo filter_column filter_value of
        Inl e \<Rightarrow> Inl e
      | Inr filtered \<Rightarrow>
          (case get_column filtered ''reach_id'' of
             Inl e \<Rightarrow> Inl e
           | Inr ids \<Rightarrow> Inr (map py_str (dropna ids))))"

text \<open>\<^verbatim>\<open>df[c] = v\<close> on one row.\<close>

fun assign :: "string \<Rightarrow> cell \<Rightarrow> row \<Rightarrow> row" where
  "assign c v [] = [(c, v)]"
| "assign c v ((k, x) # r) = (if k = c then (c, v) # r else (k, x) # assign c v r)"

fun union_columns :: "string list \<Rightarrow> string list \<Rightarrow> string list" where
  "union_columns acc [] = acc"
| "union_columns acc (c # cs) = union_columns (if c \<in> set acc then acc else acc @ [c]) cs"

text \<open>\<^verbatim>\<open>pd.concat(results, ignore_index=True)\<close>: the union of the columns in order of
  first appearance, the rows of each table in turn.\<close>

definition pd_concat :: "table list \<Rightarrow> table" where
  "pd_concat ts =
     \<lparr>columns = foldl union_columns [] (map columns ts), rows = concat (map rows ts)\<rparr>"

subsection \<open>Output names (lines 154-157, 196, 209)\<close>

definition isalnum :: "char \<Rightarrow> bool" where
  "isalnum c \<longleftrightarrow>
     c \<in> set ''abcdefghijklmnopqrstuvwxyzABCDEFGHIJKLMNOPQRSTUVWXYZ0123456789''"

text \<open>Line 154 iterates over the filter value, which only a string allows.\<close>

definition safe_val :: "cell \<Rightarrow> exn + string" where
  "safe_val filter_value =
     (case filter_value of
        StrCell s \<Rightarrow> Inr (filter (\<lambda>c. isalnum c \<or> c \<in> set '' _-'') s)
      | _ \<Rightarrow> Inl TypeError)"

definition OUTPUT_DIR :: "string \<Rightarrow> string" where
  "OUTPUT_DIR sv = ''swot_'' @ sv @ ''_output''"

definition LOG_FILE :: "string \<Rightarrow> string" where
  "LOG_FILE sv = path_join (OUTPUT_DIR sv) ''logger.txt''"

definition reach_path :: "string \<Rightarrow> string \<Rightarrow> string" where
  "reach_path sv rid = path_join (OUTPUT_DIR sv) (''reach_'' @ rid @ ''.csv'')"

definition combined_name :: "string \<Rightarrow> string" where
  "combined_name sv = ''combined_'' @ sv @ ''.csv''"

definition combined_path :: "string \<Rightarrow> string" where
  "combined_path sv = path_join (OUTPUT_DIR sv) (combined_name sv)"

subsection \<open>The Hydrocron endpoint and the libraries\<close>

record response =
  status_code :: int
  retry_after :: "string option"
  resp_text :: string
  json_body :: "json option"

text \<open>
  \<open>retry_after\<close> is \<^verbatim>\<open>resp.headers.get('Retry-After')\<close>, \<open>json_body\<close> is what
  \<^verbatim>\<open>resp.json()\<close> returns, \<open>None\<close> when it raises.

  The oracles: \<open>http_get k url\<close> answers the \<open>k\<close>-th request of the run, by raising or with
  a response; \<open>now_iso k\<close> is \<^verbatim>\<open>datetime.now().isoformat()\<close> read after \<open>k\<close> requests;
  \<open>to_datetime col i\<close> is entry \<open>i\<close> of \<^verbatim>\<open>pd.to_datetime(col, errors='coerce')\<close>.
\<close>

record world =
  http_get :: "nat \<Rightarrow> string \<Rightarrow> exn + response"
  now_iso :: "nat \<Rightarrow> string"
  read_csv :: "string \<Rightarrow> exn + table"
  to_datetime :: "cell list \<Rightarrow> nat \<Rightarrow> cell"
  to_csv :: "table \<Rightarrow> string"

record config =
  start_date :: string
  end_date :: string
  selected_fields :: "string list"
  throttle_delay :: real

datatype event =
    Progress nat nat
  | Fetching string nat nat
  | Request string
  | RateLimited int
  | Sleep real
  | BadRequest string string
  | NoData string
  | ReachError string exn
  | NoReachIds
  | Processing nat
  | Makedirs string
  | Processed nat nat
  | SavedIn string
  | NoDataRetrieved

text \<open>
  The state of a run: the accumulator \<open>results\<close> and the counter \<open>errors\<close> of lines
  159-160, the files, the time spent sleeping so far, the number of requests issued, and
  what the run showed and did.
\<close>

record run_state =
  results :: "table list"
  errors :: nat
  files :: "string \<Rightarrow> string option"
  clock :: real
  requests :: nat
  trace :: "event list"

definition emit :: "event \<Rightarrow> run_state \<Rightarrow> run_state" where
  "emit e s = s\<lparr>trace := trace s @ [e]\<rparr>"

text \<open>
  \<^verbatim>\<open>time.sleep(d)\<close> raises \<^verbatim>\<open>ValueError\<close> on a negative length, and on a length it
  cannot hand to the system: \<^verbatim>\<open>OSError\<close> at 9223372036 seconds, \<^verbatim>\<open>OverflowError\<close> from
  9223372037 seconds on (CPython on Linux, the time being counted in nanoseconds in 64
  bits).
\<close>

definition sleep :: "real \<Rightarrow> run_state \<Rightarrow> exn + run_state" where
  "sleep d s =
     (if d < 0 then Inl ValueError
      else if 9223372037 \<le> d then Inl OverflowError
      else if 9223372036 \<le> d then Inl OSError
      else Inr (s\<lparr>clock := clock s + d, trace := trace s @ [Sleep d]\<rparr>))"

definition request :: "world \<Rightarrow> string \<Rightarrow> run_state \<Rightarrow> (exn + response) \<times> run_state" where
  "request w url s =
     (http_get w (requests s) url,
      s\<lparr>requests := Suc (requests s), trace := trace s @ [Request url]\<rparr>)"

text \<open>\<^verbatim>\<open>open(p, "a").write(txt)\<close> and a write that replaces the file.\<close>

definition append_file :: "string \<Rightarrow> string \<Rightarrow> run_state \<Rightarrow> run_state" where
  "append_file p txt s =
     s\<lparr>files := (files s)(p \<mapsto> (case files s p of None \<Rightarrow> [] | Some old \<Rightarrow> old) @ txt)\<rparr>"

definition write_file :: "string \<Rightarrow> string \<Rightarrow> run_state \<Rightarrow> run_state" where
  "write_file p txt s = s\<lparr>files := (files s)(p \<mapsto> txt)\<rparr>"

subsection \<open>One reach (lines 165-205)\<close>

text \<open>Lines 167-173.\<close>

definition url_of :: "config \<Rightarrow> string \<Rightarrow> string" where
  "url_of cfg rid =
     ''https://soto.podaac.earthdatacloud.nasa.gov/hydrocron/v1/timeseries?''
     @ ''feature=Reach&feature_id='' @ rid
     @ ''&start_time='' @ start_date cfg @ ''T00:00:00Z''
     @ ''&end_time='' @ end_date cfg @ ''T00:00:00Z''
     @ ''&output=csv&fields='' @ comma_join (selected_fields cfg)"

text \<open>Line 177: \<^verbatim>\<open>int(resp.headers.get('Retry-After', 10))\<close>.\<close>

definition retry_seconds :: "string option \<Rightarrow> exn + int" where
  "retry_seconds h =
     (case h of
        None \<Rightarrow> Inr 10
      | Some v \<Rightarrow> (case py_int v of None \<Rightarrow> Inl ValueError | Some n \<Rightarrow> Inr n))"

text \<open>Lines 175-180: the request, and the one repetition after a 429.\<close>

definition get_with_retry ::
  "world \<Rightarrow> string \<Rightarrow> run_state \<Rightarrow> (exn + response) \<times> run_state" where
  "get_with_retry w url s =
     (case request w url s of
        (Inl e, s1) \<Rightarrow> (Inl e, s1)
      | (Inr resp, s1) \<Rightarrow>
          if status_code resp = 429 then
            (case retry_seconds (retry_after resp) of
               Inl e \<Rightarrow> (Inl e, s1)
             | Inr retry \<Rightarrow>
                 (case sleep (of_int retry) (emit (RateLimited retry) s1) of
                    Inl e \<Rightarrow> (Inl e, emit (RateLimited retry) s1)
                  | Inr s2 \<Rightarrow> request w url s2))
          else (Inr resp, s1))"

text \<open>Lines 193-195: parse \<^verbatim>\<open>time_str\<close> and drop the rows where that failed.\<close>

definition clean_time_str :: "world \<Rightarrow> table \<Rightarrow> table" where
  "clean_time_str w df =
     (if ''time_str'' \<in> set (columns df) then
        let col = map (\<lambda>r. cell_of r ''time_str'') (rows df);
            converted = map (\<lambda>(i, r). assign ''time_str'' (to_datetime w col i) r)
                            (enumerate 0 (rows df))
        in df\<lparr>rows := filter (\<lambda>r. cell_of r ''time_str'' \<noteq> Null) converted\<rparr>
      else df)"

text \<open>\<^verbatim>\<open>resp.raise_for_status()\<close>\<close>

definition raise_for_status :: "response \<Rightarrow> exn option" where
  "raise_for_status resp =
     (if 400 \<le> status_code resp \<and> status_code resp < 600
      then Some (HTTPError (status_code resp)) else None)"

text \<open>Lines 181-200, on the response that line 181 tests. The result is the exception
  that leaves the \<^verbatim>\<open>try\<close> block, if any.\<close>

definition handle_response ::
  "world \<Rightarrow> string \<Rightarrow> string \<Rightarrow> response \<Rightarrow> run_state \<Rightarrow> exn option \<times> run_state" where
  "handle_response w sv rid resp s =
     (if status_code resp = 400 then
        let s1 = emit (BadRequest rid (resp_text resp)) s;
            s2 = append_file (LOG_FILE sv) (now_iso w (requests s1) @ '' - '' @ rid @ [CHR 0x0A]) s1
        in (None, s2\<lparr>errors := errors s2 + 1\<rparr>)
      else
        (case raise_for_status resp of
           Some e \<Rightarrow> (Some e, s)
         | None \<Rightarrow>
        (case json_body resp of
           None \<Rightarrow> (Some JSONDecodeError, s)
         | Some data \<Rightarrow>
        (case dict_get data ''results'' (JObj []) of
           Inl e \<Rightarrow> (Some e, s)
         | Inr res \<Rightarrow>
        (case dict_get res ''csv'' (JStr []) of
           Inl e \<Rightarrow> (Some e, s)
         | Inr csv_txt \<Rightarrow>
             if truthy csv_txt then
               (case csv_txt of
                  JStr txt \<Rightarrow>
                    (case read_csv w txt of
                       Inl e \<Rightarrow> (Some e, s)
                     | Inr parsed \<Rightarrow>
                         let df = clean_time_str w parsed;
                             s1 = write_file (reach_path sv rid) (to_csv w df) s
                         in (None, s1\<lparr>results := results s1 @ [df]\<rparr>))
                | _ \<Rightarrow> (Some TypeError, s))
             else
               let s1 = emit (NoData rid) s in (None, s1\<lparr>errors := errors s1 + 1\<rparr>))))))"

text \<open>Lines 201-203.\<close>

definition except_handler :: "string \<Rightarrow> exn option \<Rightarrow> run_state \<Rightarrow> run_state" where
  "except_handler rid raised s =
     (case raised of
        None \<Rightarrow> s
      | Some e \<Rightarrow> (let s1 = emit (ReachError rid e) s in s1\<lparr>errors := errors s1 + 1\<rparr>))"

text \<open>The body of the loop for the reach at position \<open>i\<close> of \<open>n\<close>. The \<^verbatim>\<open>finally\<close>
  clause sleeps last; were its sleep to raise, the run would end there.\<close>

definition process_reach ::
  "world \<Rightarrow> config \<Rightarrow> string \<Rightarrow> nat \<Rightarrow> nat \<Rightarrow> string \<Rightarrow> run_state \<Rightarrow> exn + run_state" where
  "process_reach w cfg sv n i rid s =
     (let s0 = emit (Fetching rid (i + 1) n) (emit (Progress (i + 1) n) s);
          url = url_of cfg rid;
          (raised, s2) =
             (case get_with_retry w url s0 of
                (Inl e, s1) \<Rightarrow> (Some e, s1)
              | (Inr resp, s1) \<Rightarrow> handle_response w sv rid resp s1)
      in sleep (throttle_delay cfg) (except_handler rid raised s2))"

subsection \<open>The run (lines 146-218)\<close>

text \<open>Line 164: \<^verbatim>\<open>for i, rid in enumerate(reach_ids)\<close>.\<close>

fun fetch_loop ::
  "world \<Rightarrow> config \<Rightarrow> string \<Rightarrow> nat \<Rightarrow> nat \<Rightarrow> string list \<Rightarrow> run_state \<Rightarrow> exn + run_state" where
  "fetch_loop w cfg sv n i [] s = Inr s"
| "fetch_loop w cfg sv n i (rid # rids) s =
     (case process_reach w cfg sv n i rid s of
        Inl e \<Rightarrow> Inl e
      | Inr s' \<Rightarrow> fetch_loop w cfg sv n (Suc i) rids s')"

text \<open>Lines 207-218.\<close>

definition present :: "world \<Rightarrow> string \<Rightarrow> run_state \<Rightarrow> run_state \<times> table option" where
  "present w sv s =
     (if results s \<noteq> [] then
        let combined = pd_concat (results s);
            s1 = write_file (combined_path sv) (to_csv w combined) s;
            s2 = emit (Processed (length (results s1)) (errors s1)) s1
        in (emit (SavedIn (OUTPUT_DIR sv)) s2, Some combined)
      else (emit NoDataRetrieved s, None))"

text \<open>What the button starts. An exception that nothing catches ends the script run.\<close>

definition process_data ::
  "world \<Rightarrow> config \<Rightarrow> table \<Rightarrow> string \<Rightarrow> cell \<Rightarrow> run_state \<Rightarrow> exn + run_state \<times> table option" where
  "process_data w cfg df_geo filter_column filter_value s =
     (case reach_ids_of df_geo filter_column filter_value of
        Inl e \<Rightarrow> Inl e
      | Inr reach_ids \<Rightarrow>
          if reach_ids = [] then Inr (emit NoReachIds s, None)
          else
            (case safe_val filter_value of
               Inl e \<Rightarrow> Inl e
             | Inr sv \<Rightarrow>
                 let s1 = emit (Makedirs (OUTPUT_DIR sv)) (emit (Processing (length reach_ids)) s);
                     s2 = s1\<lparr>results := [], errors := 0\<rparr>
                 in (case fetch_loop w cfg sv (length reach_ids) 0 reach_ids s2 of
                       Inl e \<Rightarrow> Inl e
                     | Inr s3 \<Rightarrow> Inr (present w sv s3))))"

subsection \<open>Loading the upload (lines 89-107)\<close>

record upload =
  name :: string
  content :: string

text \<open>\<^verbatim>\<open>f.size\<close> is the length of the buffer.\<close>

definition upload_size :: "upload \<Rightarrow> nat" where
  "upload_size f = length (content f)"

datatype ui_event = ReadFile string | Success nat | Error string

record session =
  geo_df :: "table option"
  upload_key :: "(string \<times> nat) list option"
  messages :: "ui_event list"

text \<open>The temporary directory as the list of its entries; a second write under a name
  replaces the first.\<close>

fun dir_write :: "string \<Rightarrow> string \<Rightarrow> (string \<times> string) list \<Rightarrow> (string \<times> string) list" where
  "dir_write k v [] = [(k, v)]"
| "dir_write k v ((k', v') # d) = (if k' = k then (k, v) # d else (k', v') # dir_write k v d)"

definition write_uploads :: "upload list \<Rightarrow> (string \<times> string) list" where
  "write_uploads fs = foldl (\<lambda>d f. dir_write (name f) (content f) d) [] fs"

definition current_key :: "upload list \<Rightarrow> (string \<times> nat) list" where
  "current_key sword_file = map (\<lambda>f. (name f, upload_size f)) sword_file"

text \<open>
  \<open>read_file dir p\<close> is \<^verbatim>\<open>gpd.read_file\<close> on entry \<open>p\<close> of the directory: the data
  set, or the message of the exception. Removing the directory (line 107) touches
  nothing the session keeps.
\<close>

definition load_upload ::
  "((string \<times> string) list \<Rightarrow> string \<Rightarrow> string + table) \<Rightarrow> upload list \<Rightarrow> session \<Rightarrow> session" where
  "load_upload read_file sword_file st =
     (if sword_file = [] then st
      else if Some (current_key sword_file) = upload_key st then st
      else
        let temp_dir = write_uploads sword_file;
            shp_files = filter (\<lambda>f. endswith f ''.shp'') (map fst temp_dir)
        in (case shp_files of
              [] \<Rightarrow> st\<lparr>messages := messages st @ [Error ''No .shp file found in upload'']\<rparr>
            | p # _ \<Rightarrow>
                (case read_file temp_dir p of
                   Inr df \<Rightarrow>
                     st\<lparr>geo_df := Some df,
                        messages := messages st @ [ReadFile p, Success (length (rows df))],
                        upload_key := Some (current_key sword_file)\<rparr>
                 | Inl msg \<Rightarrow>
                     st\<lparr>messages := messages st
                          @ [ReadFile p, Error (''Error loading shapefile: '' @ msg)]\<rparr>)))"


definition parse_count :: "session \<Rightarrow> nat" where
  "parse_count st = length (filter (\<lambda>e. case e of ReadFile p \<Rightarrow> True | _ \<Rightarrow> False) (messages st))"

subsection \<open>Reading a trace\<close>

text \<open>
  The clock of the model advances only in \<^verbatim>\<open>time.sleep\<close>; whatever else the run does
  takes no time here and some time in the world, so a distance between two events on this
  clock is a lower bound of the real one. \<open>elapsed\<close> is the time a stretch of trace
  slept; \<open>start_times t\<close> lists the clock at each \<open>Fetching\<close> event, the first thing a reach
  shows, from the clock \<open>t\<close> at the head of the trace.
\<close>

fun starts_reach :: "event \<Rightarrow> bool" where
  "starts_reach (Fetching rid i n) = True"
| "starts_reach e = False"

fun elapsed :: "event list \<Rightarrow> real" where
  "elapsed [] = 0"
| "elapsed (Sleep d # es) = d + elapsed es"
| "elapsed (e # es) = elapsed es"

fun start_times :: "real \<Rightarrow> event list \<Rightarrow> real list" where
  "start_times t [] = []"
| "start_times t (Sleep d # es) = start_times (t + d) es"
| "start_times t (Fetching rid i n # es) = t # start_times t es"
| "start_times t (e # es) = start_times t es"

text \<open>An answer with status 200 whose body is \<^verbatim>\<open>{"results": {"csv": txt}}\<close> with \<open>txt\<close>
  not empty and read by \<^verbatim>\<open>pd.read_csv\<close> as \<open>parsed\<close>.\<close>

definition csv_response :: "world \<Rightarrow> exn + response \<Rightarrow> table \<Rightarrow> bool" where
  "csv_response w r parsed =
     (case r of
        Inl e \<Rightarrow> False
      | Inr resp \<Rightarrow>
          status_code resp = 200 \<and>
          (case json_body resp of
             Some (JObj body) \<Rightarrow>
               (case map_of body ''results'' of
                  Some (JObj res) \<Rightarrow>
                    (case map_of res ''csv'' of
                       Some (JStr txt) \<Rightarrow> txt \<noteq> [] \<and> read_csv w txt = Inr parsed
                     | _ \<Rightarrow> False)
                | _ \<Rightarrow> False)
           | _ \<Rightarrow> False))"

section \<open>The filter\<close>

lemma digits_nonempty: "digits n \<noteq> []"
  by (subst digits.simps) simp

lemma py_str_empty_iff: "py_str c = [] \<longleftrightarrow> c = StrCell []"
  by (cases c) (simp_all add: py_str_def digits_nonempty)

lemma select_rows_Inr:
  "c \<in> set (columns df) \<Longrightarrow>
   select_rows df c v = Inr (df\<lparr>rows := filter (\<lambda>r. cell_eq (cell_of r c) v) (rows df)\<rparr>)"
  by (simp add: select_rows_def)

lemma reach_ids_of_Inr:
  assumes "filter_column \<in> set (columns df_geo)" and "''reach_id'' \<in> set (columns df_geo)"
  shows "reach_ids_of df_geo filter_column filter_value =
     Inr (map py_str (dropna (map (\<lambda>r. cell_of r ''reach_id'')
            (filter (\<lambda>r. cell_eq (cell_of r filter_column) filter_value) (rows df_geo)))))"
  using assms by (simp add: reach_ids_of_def select_rows_def get_column_def)

text \<open>
  Claim C5, as amended. On a data set that has the filter column and a \<open>reach_id\<close> column,
  the filter returns a list of strings that is no longer than the data set has rows; each
  identifier is \<^verbatim>\<open>str\<close> of the \<open>reach_id\<close> cell, not missing, of a row whose filter column
  equals the chosen value; and none is empty unless the data set holds an empty string as
  a \<open>reach_id\<close>. Only missing cells are dropped (\<^verbatim>\<open>dropna\<close>).
\<close>

theorem reach_ids_of_filter:
  assumes "filter_column \<in> set (columns df_geo)" and "''reach_id'' \<in> set (columns df_geo)"
  shows "\<exists>ids. reach_ids_of df_geo filter_column filter_value = Inr ids
     \<and> length ids \<le> length (rows df_geo)
     \<and> (\<forall>rid \<in> set ids. \<exists>r \<in> set (rows df_geo).
           cell_of r filter_column = filter_value
         \<and> cell_of r ''reach_id'' \<noteq> Null
         \<and> rid = py_str (cell_of r ''reach_id''))
     \<and> ((\<forall>r \<in> set (rows df_geo). cell_of r ''reach_id'' \<noteq> StrCell []) \<longrightarrow> [] \<notin> set ids)"
proof -
  let ?sel = "filter (\<lambda>r. cell_eq (cell_of r filter_column) filter_value) (rows df_geo)"
  let ?ids = "map py_str (dropna (map (\<lambda>r. cell_of r ''reach_id'') ?sel))"
  have eq: "reach_ids_of df_geo filter_column filter_value = Inr ?ids"
    using assms by (rule reach_ids_of_Inr)
  have len: "length ?ids \<le> length (rows df_geo)"
  proof -
    have "length ?ids = length (dropna (map (\<lambda>r. cell_of r ''reach_id'') ?sel))"
      by (rule length_map)
    also have "\<dots> \<le> length (map (\<lambda>r. cell_of r ''reach_id'') ?sel)"
      unfolding dropna_def by (rule length_filter_le)
    also have "\<dots> = length ?sel"
      by (rule length_map)
    also have "\<dots> \<le> length (rows df_geo)"
      by (rule length_filter_le)
    finally show ?thesis .
  qed
  have src: "\<forall>rid \<in> set ?ids. \<exists>r \<in> set (rows df_geo).
           cell_of r filter_column = filter_value
         \<and> cell_of r ''reach_id'' \<noteq> Null
         \<and> rid = py_str (cell_of r ''reach_id'')"
    by (auto simp: dropna_def cell_eq_def)
  have ne: "(\<forall>r \<in> set (rows df_geo). cell_of r ''reach_id'' \<noteq> StrCell []) \<longrightarrow> [] \<notin> set ?ids"
  proof (intro impI notI)
    assume a: "\<forall>r \<in> set (rows df_geo). cell_of r ''reach_id'' \<noteq> StrCell []"
      and "[] \<in> set ?ids"
    then obtain r where "r \<in> set (rows df_geo)" and "py_str (cell_of r ''reach_id'') = []"
      by (auto simp: dropna_def)
    with a show False by (simp add: py_str_empty_iff)
  qed
  from eq len src ne show ?thesis by blast
qed


theorem reach_ids_of_filter_witness:
  "''river_name'' \<in> set (columns \<lparr>columns = [''river_name'', ''reach_id''],
        rows = [[(''river_name'', StrCell ''Nile''), (''reach_id'', IntCell 101)],
                [(''river_name'', StrCell ''Congo''), (''reach_id'', IntCell 102)],
                [(''river_name'', StrCell ''Nile''), (''reach_id'', Null)]]\<rparr>)
   \<and> reach_ids_of \<lparr>columns = [''river_name'', ''reach_id''],
        rows = [[(''river_name'', StrCell ''Nile''), (''reach_id'', IntCell 101)],
                [(''river_name'', StrCell ''Congo''), (''reach_id'', IntCell 102)],
                [(''river_name'', StrCell ''Nile''), (''reach_id'', Null)]]\<rparr>
        ''river_name'' (StrCell ''Nile'') = Inr [''101'']"
  using reach_ids_of_filter [of "''river_name''" "\<lparr>columns = [''river_name'', ''reach_id''],
        rows = [[(''river_name'', StrCell ''Nile''), (''reach_id'', IntCell 101)],
                [(''river_name'', StrCell ''Congo''), (''reach_id'', IntCell 102)],
                [(''river_name'', StrCell ''Nile''), (''reach_id'', Null)]]\<rparr>" "StrCell ''Nile''"]
  by (simp add: reach_ids_of_def select_rows_def get_column_def dropna_def cell_eq_def
        cell_of_def py_str_def digits.simps)

text \<open>An empty string in the \<open>reach_id\<close> column is not missing, and comes out as it is.\<close>

theorem reach_ids_of_empty_identifier:
  "reach_ids_of \<lparr>columns = [''river_name'', ''reach_id''],
        rows = [[(''river_name'', StrCell ''Nile''), (''reach_id'', StrCell [])]]\<rparr>
        ''river_name'' (StrCell ''Nile'') = Inr [[]]"
  by (simp add: reach_ids_of_def select_rows_def get_column_def dropna_def cell_eq_def
        cell_of_def py_str_def)

section \<open>Output names\<close>

lemma safe_val_StrCell:
  "safe_val (StrCell s) = Inr (filter (\<lambda>c. isalnum c \<or> c \<in> set '' _-'') s)"
  by (simp add: safe_val_def)

lemma safe_val_Congo: "safe_val (StrCell ''Congo/Zaire'') = Inr ''CongoZaire''"
  by (simp add: safe_val_def isalnum_def)

text \<open>
  Claim C8. The name of the output directory is to come from the sanitised filter value,
  whatever the value. For a string it does (\<open>safe_val_StrCell\<close>, \<open>safe_val_Congo\<close>). The
  values offered for a numeric column are numbers, and line 154 iterates over the value:
  on the number 5 the run ends in a \<^verbatim>\<open>TypeError\<close> before any directory is named.
\<close>

theorem safe_val_numeric:
  "safe_val (IntCell 5) = Inl TypeError
   \<and> process_data w cfg
        \<lparr>columns = [''reach_id'', ''continent''],
         rows = [[(''reach_id'', IntCell 101), (''continent'', IntCell 5)]]\<rparr>
        ''continent'' (IntCell 5) s = Inl TypeError"
  by (simp add: process_data_def safe_val_def reach_ids_of_def select_rows_def get_column_def
        dropna_def cell_eq_def cell_of_def py_str_def)

section \<open>Loading the upload\<close>





lemma parse_count_append:
  "parse_count (st\<lparr>messages := messages st @ es\<rparr>)
     = parse_count st + length (filter (\<lambda>e. case e of ReadFile p \<Rightarrow> True | _ \<Rightarrow> False) es)"
  by (simp add: parse_count_def)







text \<open>
  Claim C7. When \<^verbatim>\<open>gpd.read_file\<close> raises on the bundle's shapefile, the page shows an
  error that carries the message of the exception, and the session keeps the data set
  (and the identity) it had.
\<close>

theorem load_upload_parse_failure:
  assumes "sword_file \<noteq> []" and "upload_key st \<noteq> Some (current_key sword_file)"
    and "filter (\<lambda>f. endswith f ''.shp'') (map fst (write_uploads sword_file)) = p # ps"
    and "read_file (write_uploads sword_file) p = Inl msg"
  shows "load_upload read_file sword_file st =
     st\<lparr>messages := messages st @ [ReadFile p, Error (''Error loading shapefile: '' @ msg)]\<rparr>
     \<and> geo_df (load_upload read_file sword_file st) = geo_df st"
  using assms by (auto simp: load_upload_def)

theorem load_upload_parse_failure_witness:
  "load_upload (\<lambda>d p. Inl ''not a shapefile'')
       [\<lparr>name = ''r.shp'', content = ''abcd''\<rparr>, \<lparr>name = ''r.dbf'', content = ''ef''\<rparr>]
       \<lparr>geo_df = Some \<lparr>columns = [''reach_id''], rows = [[(''reach_id'', IntCell 7)]]\<rparr>,
        upload_key = Some [(''old.shp'', 9)], messages = []\<rparr>
   = \<lparr>geo_df = Some \<lparr>columns = [''reach_id''], rows = [[(''reach_id'', IntCell 7)]]\<rparr>,
      upload_key = Some [(''old.shp'', 9)],
      messages = [ReadFile ''r.shp'', Error ''Error loading shapefile: not a shapefile'']\<rparr>"
  using load_upload_parse_failure
    [of "[\<lparr>name = ''r.shp'', content = ''abcd''\<rparr>, \<lparr>name = ''r.dbf'', content = ''ef''\<rparr>]"
        "\<lparr>geo_df = Some \<lparr>columns = [''reach_id''], rows = [[(''reach_id'', IntCell 7)]]\<rparr>,
          upload_key = Some [(''old.shp'', 9)], messages = []\<rparr>"
        "''r.shp''" "[]" "\<lambda>d p. Inl ''not a shapefile''" "''not a shapefile''"]
  by (simp add: current_key_def upload_size_def write_uploads_def endswith_def)

section \<open>The fetch loop\<close>

lemma elapsed_append: "elapsed (xs @ ys) = elapsed xs + elapsed ys"
  by (induction xs rule: elapsed.induct) simp_all

lemma start_times_append:
  "start_times t (xs @ ys) = start_times t xs @ start_times (t + elapsed xs) ys"
  by (induction t xs rule: start_times.induct) (simp_all add: add.assoc)

lemma start_times_quiet: "\<forall>e \<in> set evs. \<not> starts_reach e \<Longrightarrow> start_times t evs = []"
  by (induction t evs rule: start_times.induct) simp_all

lemma get_with_retry_effect:
  assumes "get_with_retry w url s = (r, s1)"
  shows "results s1 = results s \<and> errors s1 = errors s \<and> files s1 = files s
     \<and> requests s < requests s1 \<and> requests s1 \<le> requests s + 2
     \<and> (\<exists>evs. trace s1 = trace s @ evs \<and> (\<forall>e \<in> set evs. \<not> starts_reach e)
            \<and> 0 \<le> elapsed evs \<and> clock s1 = clock s + elapsed evs)"
  using assms
  by (auto simp: get_with_retry_def request_def sleep_def emit_def
           split: sum.splits if_splits prod.splits)

lemma handle_response_effect:
  assumes "handle_response w sv rid resp s = (r, s1)"
  shows "clock s1 = clock s \<and> requests s1 = requests s
     \<and> (\<exists>evs. trace s1 = trace s @ evs \<and> (\<forall>e \<in> set evs. \<not> starts_reach e) \<and> elapsed evs = 0)
     \<and> (case r of
           Some e \<Rightarrow> results s1 = results s \<and> errors s1 = errors s
         | None \<Rightarrow> (\<exists>t. results s1 = results s @ [t] \<and> errors s1 = errors s)
                 \<or> (results s1 = results s \<and> errors s1 = Suc (errors s)))"
  using assms
  by (auto simp: handle_response_def raise_for_status_def emit_def append_file_def
           write_file_def Let_def
           split: sum.splits if_splits option.splits json.splits)


lemma except_handler_effect:
  "clock (except_handler rid r s) = clock s \<and> requests (except_handler rid r s) = requests s
   \<and> files (except_handler rid r s) = files s
   \<and> results (except_handler rid r s) = results s
   \<and> errors (except_handler rid r s) = (case r of None \<Rightarrow> errors s | Some e \<Rightarrow> Suc (errors s))
   \<and> trace (except_handler rid r s)
        = trace s @ (case r of None \<Rightarrow> [] | Some e \<Rightarrow> [ReachError rid e])"
  by (simp add: except_handler_def emit_def split: option.splits)

lemma process_reach_effect:
  assumes "0 \<le> throttle_delay cfg \<and> throttle_delay cfg < 9223372036"
  shows "\<exists>s' mid. process_reach w cfg sv n i rid s = Inr s'
     \<and> trace s' = trace s @ Progress (i + 1) n # Fetching rid (i + 1) n # mid
                     @ [Sleep (throttle_delay cfg)]
     \<and> (\<forall>e \<in> set mid. \<not> starts_reach e)
     \<and> 0 \<le> elapsed mid
     \<and> clock s' = clock s + elapsed mid + throttle_delay cfg
     \<and> ((\<exists>t. results s' = results s @ [t] \<and> errors s' = errors s)
          \<or> (results s' = results s \<and> errors s' = Suc (errors s)))"
proof -
  let ?s0 = "emit (Fetching rid (i + 1) n) (emit (Progress (i + 1) n) s)"
  obtain g s1 where g: "get_with_retry w (url_of cfg rid) ?s0 = (g, s1)"
    by (cases "get_with_retry w (url_of cfg rid) ?s0")
  from get_with_retry_effect [OF g] obtain evs1 where
    g1: "results s1 = results s" "errors s1 = errors s"
    and t1: "trace s1 = trace ?s0 @ evs1" "\<forall>e \<in> set evs1. \<not> starts_reach e"
       "0 \<le> elapsed evs1" "clock s1 = clock ?s0 + elapsed evs1"
    by (auto simp: emit_def)
  define r where "r = (case g of Inl e \<Rightarrow> Some e | Inr resp \<Rightarrow> fst (handle_response w sv rid resp s1))"
  define s2 where "s2 = (case g of Inl e \<Rightarrow> s1 | Inr resp \<Rightarrow> snd (handle_response w sv rid resp s1))"
  have h: "clock s2 = clock s1 \<and>
     (\<exists>evs. trace s2 = trace s1 @ evs \<and> (\<forall>e \<in> set evs. \<not> starts_reach e) \<and> elapsed evs = 0)
     \<and> (case r of
           Some e \<Rightarrow> results s2 = results s1 \<and> errors s2 = errors s1
         | None \<Rightarrow> (\<exists>t. results s2 = results s1 @ [t] \<and> errors s2 = errors s1)
                 \<or> (results s2 = results s1 \<and> errors s2 = Suc (errors s1)))"
  proof (cases g)
    case (Inl e)
    then show ?thesis by (simp add: r_def s2_def)
  next
    case (Inr resp)
    have "handle_response w sv rid resp s1 = (r, s2)"
      by (simp add: r_def s2_def Inr)
    from handle_response_effect [OF this] show ?thesis by blast
  qed
  then obtain evs2 where
    c2: "clock s2 = clock s1"
    and t2: "trace s2 = trace s1 @ evs2" "\<forall>e \<in> set evs2. \<not> starts_reach e" "elapsed evs2 = 0"
    and o2: "case r of
           Some e \<Rightarrow> results s2 = results s1 \<and> errors s2 = errors s1
         | None \<Rightarrow> (\<exists>t. results s2 = results s1 @ [t] \<and> errors s2 = errors s1)
                 \<or> (results s2 = results s1 \<and> errors s2 = Suc (errors s1))"
    by blast
  let ?s3 = "except_handler rid r s2"
  let ?mid = "evs1 @ evs2 @ (case r of None \<Rightarrow> [] | Some e \<Rightarrow> [ReachError rid e])"
  let ?s' = "?s3\<lparr>clock := clock ?s3 + throttle_delay cfg,
                 trace := trace ?s3 @ [Sleep (throttle_delay cfg)]\<rparr>"
  have pr: "process_reach w cfg sv n i rid s = Inr ?s'"
    using assms g
    by (cases g) (simp_all add: process_reach_def Let_def sleep_def r_def s2_def split: prod.splits)
  have tr: "trace ?s' = trace s @ Progress (i + 1) n # Fetching rid (i + 1) n # ?mid
                     @ [Sleep (throttle_delay cfg)]"
    using t1(1) t2(1) except_handler_effect [of rid r s2] by (simp add: emit_def)
  have quiet: "\<forall>e \<in> set ?mid. \<not> starts_reach e"
    using t1(2) t2(2) by (auto split: option.splits)
  have el: "elapsed ?mid = elapsed evs1"
    using t2(3) by (simp add: elapsed_append split: option.splits)
  have ck: "clock ?s' = clock s + elapsed ?mid + throttle_delay cfg"
    using t1(4) c2 el except_handler_effect [of rid r s2] by (simp add: emit_def)
  have oc: "(\<exists>t. results ?s' = results s @ [t] \<and> errors ?s' = errors s)
          \<or> (results ?s' = results s \<and> errors ?s' = Suc (errors s))"
    using o2 g1 except_handler_effect [of rid r s2] by (cases r) auto
  from pr tr quiet el t1(3) ck oc show ?thesis
    by (intro exI [of _ ?s'] exI [of _ ?mid]) simp
qed

lemma start_times_lower:
  "\<forall>e \<in> set evs. (case e of Sleep d \<Rightarrow> 0 \<le> d | _ \<Rightarrow> True) \<Longrightarrow>
   \<forall>x \<in> set (start_times t evs). t \<le> x"
proof (induction t evs rule: start_times.induct)
  case (2 t d es)
  then have "\<forall>x \<in> set (start_times (t + d) es). t + d \<le> x" and "0 \<le> d" by simp_all
  then show ?case by fastforce
qed simp_all

lemma fetch_loop_effect:
  assumes "0 \<le> throttle_delay cfg \<and> throttle_delay cfg < 9223372036"
  shows "\<exists>s' evs. fetch_loop w cfg sv n i rids s = Inr s'
     \<and> trace s' = trace s @ evs
     \<and> clock s + real (length rids) * throttle_delay cfg \<le> clock s'
     \<and> length (results s') + errors s' = length (results s) + errors s + length rids
     \<and> (\<forall>x \<in> set (start_times (clock s) evs). clock s \<le> x)
     \<and> sorted_wrt (\<lambda>a b. a + throttle_delay cfg \<le> b) (start_times (clock s) evs)
     \<and> length (start_times (clock s) evs) = length rids"
proof (induction rids arbitrary: s i)
  case Nil
  show ?case by simp
next
  case (Cons rid rids)
  let ?d = "throttle_delay cfg"
  from process_reach_effect [OF assms, of w sv n i rid s] obtain s1 mid where
    p: "process_reach w cfg sv n i rid s = Inr s1"
    and t: "trace s1 = trace s @ Progress (i + 1) n # Fetching rid (i + 1) n # mid @ [Sleep ?d]"
    and q: "\<forall>e \<in> set mid. \<not> starts_reach e"
    and e: "0 \<le> elapsed mid"
    and c: "clock s1 = clock s + elapsed mid + ?d"
    and o: "(\<exists>t. results s1 = results s @ [t] \<and> errors s1 = errors s)
          \<or> (results s1 = results s \<and> errors s1 = Suc (errors s))"
    by blast
  from Cons.IH [of "Suc i" s1] obtain s' evs where
    l: "fetch_loop w cfg sv n (Suc i) rids s1 = Inr s'"
    and t': "trace s' = trace s1 @ evs"
    and c': "clock s1 + real (length rids) * ?d \<le> clock s'"
    and o': "length (results s') + errors s' = length (results s1) + errors s1 + length rids"
    and lo: "\<forall>x \<in> set (start_times (clock s1) evs). clock s1 \<le> x"
    and so: "sorted_wrt (\<lambda>a b. a + ?d \<le> b) (start_times (clock s1) evs)"
    and le: "length (start_times (clock s1) evs) = length rids"
    by blast
  let ?seg = "Progress (i + 1) n # Fetching rid (i + 1) n # mid @ [Sleep ?d]"
  have seg_el: "clock s + elapsed ?seg = clock s1"
    using c by (simp add: elapsed_append)
  have seg_st: "start_times (clock s) ?seg = [clock s]"
    using q by (simp add: start_times_append start_times_quiet)
  have st: "start_times (clock s) (?seg @ evs) = clock s # start_times (clock s1) evs"
    using seg_st seg_el start_times_append [of "clock s" ?seg evs] by simp
  have cs: "clock s + ?d \<le> clock s1"
    using c e by simp
  have "fetch_loop w cfg sv n i (rid # rids) s = Inr s'"
    using p l by simp
  moreover have "trace s' = trace s @ (?seg @ evs)"
    using t t' by simp
  moreover have "clock s + real (length (rid # rids)) * ?d \<le> clock s'"
    using cs c' by (simp add: algebra_simps)
  moreover have "length (results s') + errors s'
      = length (results s) + errors s + length (rid # rids)"
    using o o' by auto
  moreover have "\<forall>x \<in> set (start_times (clock s) (?seg @ evs)). clock s \<le> x"
    unfolding st using lo cs assms by fastforce
  moreover have "sorted_wrt (\<lambda>a b. a + ?d \<le> b) (start_times (clock s) (?seg @ evs))"
    unfolding st using lo so cs by fastforce
  moreover have "length (start_times (clock s) (?seg @ evs)) = length (rid # rids)"
    unfolding st using le by simp
  ultimately show ?case by blast
qed


text \<open>
  Claim C1. With a delay that \<^verbatim>\<open>time.sleep\<close> accepts (the slider gives 0.1 to 2.0),
  whatever the service and the libraries answer: the events a reach leaves begin with its \<open>Fetching\<close>
  line and end with the sleep of the configured delay, the \<^verbatim>\<open>finally\<close> clause, so the
  sleep comes after the reach is handled and before the next one starts; and over a run
  the clock at the start of any reach is at least the delay after the clock at the start
  of every earlier one, the run lasting at least the delay times the number of reaches.
\<close>

theorem fetch_loop_throttled:
  assumes "0 \<le> throttle_delay cfg \<and> throttle_delay cfg < 9223372036"
  shows "(\<exists>s' mid. process_reach w cfg sv n i rid s = Inr s'
           \<and> trace s' = trace s @ Progress (i + 1) n # Fetching rid (i + 1) n # mid
                           @ [Sleep (throttle_delay cfg)]
           \<and> (\<forall>e \<in> set mid. \<not> starts_reach e)
           \<and> clock s + throttle_delay cfg \<le> clock s')
     \<and> (\<exists>s' evs. fetch_loop w cfg sv n i rids s = Inr s'
           \<and> trace s' = trace s @ evs
           \<and> length (start_times (clock s) evs) = length rids
           \<and> sorted_wrt (\<lambda>a b. a + throttle_delay cfg \<le> b) (start_times (clock s) evs)
           \<and> clock s + real (length rids) * throttle_delay cfg \<le> clock s')"
proof
  from process_reach_effect [OF assms, of w sv n i rid s] obtain s' mid where
    "process_reach w cfg sv n i rid s = Inr s'"
    "trace s' = trace s @ Progress (i + 1) n # Fetching rid (i + 1) n # mid
                           @ [Sleep (throttle_delay cfg)]"
    "\<forall>e \<in> set mid. \<not> starts_reach e"
    "0 \<le> elapsed mid" "clock s' = clock s + elapsed mid + throttle_delay cfg"
    by blast
  then show "\<exists>s' mid. process_reach w cfg sv n i rid s = Inr s'
           \<and> trace s' = trace s @ Progress (i + 1) n # Fetching rid (i + 1) n # mid
                           @ [Sleep (throttle_delay cfg)]
           \<and> (\<forall>e \<in> set mid. \<not> starts_reach e)
           \<and> clock s + throttle_delay cfg \<le> clock s'"
    by (intro exI [of _ s'] exI [of _ mid]) simp
next
  from fetch_loop_effect [OF assms, of w sv n i rids s]
  show "\<exists>s' evs. fetch_loop w cfg sv n i rids s = Inr s'
           \<and> trace s' = trace s @ evs
           \<and> length (start_times (clock s) evs) = length rids
           \<and> sorted_wrt (\<lambda>a b. a + throttle_delay cfg \<le> b) (start_times (clock s) evs)
           \<and> clock s + real (length rids) * throttle_delay cfg \<le> clock s'"
    by blast
qed

theorem fetch_loop_throttled_witness:
  "0 \<le> throttle_delay \<lparr>start_date = ''2023-08-01'', end_date = ''2025-05-30'', selected_fields = [''reach_id'', ''wse''], throttle_delay = 1 / 2\<rparr>
   \<and> (\<exists>s' evs. fetch_loop \<lparr>http_get = \<lambda>k url. Inr \<lparr>status_code = 400, retry_after = None, resp_text = ''no such reach'', json_body = None\<rparr>, now_iso = \<lambda>k. ''2024-05-01T12:00:00'', read_csv = \<lambda>t. Inl ParserError, to_datetime = \<lambda>c i. Null, to_csv = \<lambda>t. []\<rparr> \<lparr>start_date = ''2023-08-01'', end_date = ''2025-05-30'', selected_fields = [''reach_id'', ''wse''], throttle_delay = 1 / 2\<rparr> ''Nile'' 2 0 [''101'', ''102''] \<lparr>results = [], errors = 0, files = Map.empty, clock = 0, requests = 0, trace = []\<rparr> = Inr s'
         \<and> trace s' = evs
         \<and> length (start_times 0 evs) = 2
         \<and> sorted_wrt (\<lambda>a b. a + 1 / 2 \<le> b) (start_times 0 evs)
         \<and> 1 \<le> clock s')"
  using fetch_loop_throttled [of "\<lparr>start_date = ''2023-08-01'', end_date = ''2025-05-30'', selected_fields = [''reach_id'', ''wse''], throttle_delay = 1 / 2\<rparr>" "\<lparr>http_get = \<lambda>k url. Inr \<lparr>status_code = 400, retry_after = None, resp_text = ''no such reach'', json_body = None\<rparr>, now_iso = \<lambda>k. ''2024-05-01T12:00:00'', read_csv = \<lambda>t. Inl ParserError, to_datetime = \<lambda>c i. Null, to_csv = \<lambda>t. []\<rparr>" "''Nile''" 2 0 "''101''" "\<lparr>results = [], errors = 0, files = Map.empty, clock = 0, requests = 0, trace = []\<rparr>" "[''101'', ''102'']"]
  by (auto simp del: fetch_loop.simps simp add: numeral_2_eq_2)

text \<open>
  Claim C9. A reach either appends one table to \<open>results\<close> and leaves \<open>errors\<close> alone, or
  adds one to \<open>errors\<close> and leaves \<open>results\<close> alone; the two cannot hold together, the
  lists differing in length. So a loop over \<open>rids\<close> adds their number to the tables and
  errors counted together, which from the empty list and zero of lines 159-160 is that
  number.
\<close>

theorem fetch_loop_one_outcome:
  assumes "0 \<le> throttle_delay cfg \<and> throttle_delay cfg < 9223372036"
  shows "(\<exists>s'. process_reach w cfg sv n i rid s = Inr s'
           \<and> ((\<exists>t. results s' = results s @ [t] \<and> errors s' = errors s)
                \<or> (results s' = results s \<and> errors s' = Suc (errors s))))
     \<and> (\<exists>s'. fetch_loop w cfg sv n i rids s = Inr s'
           \<and> length (results s') + errors s' = length (results s) + errors s + length rids)
     \<and> (\<exists>s'. fetch_loop w cfg sv n 0 rids (s\<lparr>results := [], errors := 0\<rparr>) = Inr s'
           \<and> length (results s') + errors s' = length rids)"
proof (intro conjI)
  from process_reach_effect [OF assms, of w sv n i rid s]
  show "\<exists>s'. process_reach w cfg sv n i rid s = Inr s'
           \<and> ((\<exists>t. results s' = results s @ [t] \<and> errors s' = errors s)
                \<or> (results s' = results s \<and> errors s' = Suc (errors s)))"
    by blast
next
  from fetch_loop_effect [OF assms, of w sv n i rids s]
  show "\<exists>s'. fetch_loop w cfg sv n i rids s = Inr s'
           \<and> length (results s') + errors s' = length (results s) + errors s + length rids"
    by blast
next
  from fetch_loop_effect [OF assms, of w sv n 0 rids "s\<lparr>results := [], errors := 0\<rparr>"]
  show "\<exists>s'. fetch_loop w cfg sv n 0 rids (s\<lparr>results := [], errors := 0\<rparr>) = Inr s'
           \<and> length (results s') + errors s' = length rids"
    by auto
qed

theorem fetch_loop_one_outcome_witness:
  "0 \<le> throttle_delay \<lparr>start_date = ''2023-08-01'', end_date = ''2025-05-30'', selected_fields = [''reach_id'', ''wse''], throttle_delay = 1 / 2\<rparr>
   \<and> (\<exists>s'. fetch_loop \<lparr>http_get = \<lambda>k url. Inr \<lparr>status_code = 400, retry_after = None, resp_text = ''no such reach'', json_body = None\<rparr>, now_iso = \<lambda>k. ''2024-05-01T12:00:00'', read_csv = \<lambda>t. Inl ParserError, to_datetime = \<lambda>c i. Null, to_csv = \<lambda>t. []\<rparr> \<lparr>start_date = ''2023-08-01'', end_date = ''2025-05-30'', selected_fields = [''reach_id'', ''wse''], throttle_delay = 1 / 2\<rparr> ''Nile'' 2 0 [''101'', ''102''] \<lparr>results = [], errors = 0, files = Map.empty, clock = 0, requests = 0, trace = []\<rparr> = Inr s'
         \<and> length (results s') + errors s' = 2)"
  using fetch_loop_one_outcome [of "\<lparr>start_date = ''2023-08-01'', end_date = ''2025-05-30'', selected_fields = [''reach_id'', ''wse''], throttle_delay = 1 / 2\<rparr>" "\<lparr>http_get = \<lambda>k url. Inr \<lparr>status_code = 400, retry_after = None, resp_text = ''no such reach'', json_body = None\<rparr>, now_iso = \<lambda>k. ''2024-05-01T12:00:00'', read_csv = \<lambda>t. Inl ParserError, to_datetime = \<lambda>c i. Null, to_csv = \<lambda>t. []\<rparr>" "''Nile''" 2 0 "''101''" "\<lparr>results = [], errors = 0, files = Map.empty, clock = 0, requests = 0, trace = []\<rparr>" "[''101'', ''102'']"]
  by (auto simp del: fetch_loop.simps simp add: numeral_2_eq_2)

lemma get_with_retry_plain:
  assumes "http_get w (requests s) url = Inr resp" and "status_code resp \<noteq> 429"
  shows "get_with_retry w url s =
     (Inr resp, s\<lparr>requests := Suc (requests s), trace := trace s @ [Request url]\<rparr>)"
  using assms by (simp add: get_with_retry_def request_def)

lemma get_with_retry_raises:
  assumes "http_get w (requests s) url = Inl e"
  shows "get_with_retry w url s =
     (Inl e, s\<lparr>requests := Suc (requests s), trace := trace s @ [Request url]\<rparr>)"
  using assms by (simp add: get_with_retry_def request_def)





lemma handle_response_400:
  assumes "status_code resp = 400"
  shows "handle_response w sv rid resp s =
     (None,
      s\<lparr>trace := trace s @ [BadRequest rid (resp_text resp)],
        files := (files s)(LOG_FILE sv \<mapsto>
           (case files s (LOG_FILE sv) of None \<Rightarrow> [] | Some old \<Rightarrow> old)
           @ now_iso w (requests s) @ '' - '' @ rid @ [CHR 0x0A]),
        errors := Suc (errors s)\<rparr>)"
  using assms by (simp add: handle_response_def emit_def append_file_def Let_def)


lemma handle_response_csv:
  assumes "csv_response w (Inr resp) parsed"
  shows "handle_response w sv rid resp s =
     (None,
      s\<lparr>files := (files s)(reach_path sv rid \<mapsto> to_csv w (clean_time_str w parsed)),
        results := results s @ [clean_time_str w parsed]\<rparr>)"
proof -
  from assms have st: "status_code resp = 200"
    by (simp add: csv_response_def)
  from assms obtain body where b: "json_body resp = Some (JObj body)"
    by (cases "json_body resp"; cases "the (json_body resp)") (simp_all add: csv_response_def)
  from assms b obtain res where r: "map_of body ''results'' = Some (JObj res)"
    by (cases "map_of body ''results''"; cases "the (map_of body ''results'')")
       (simp_all add: csv_response_def)
  from assms b r obtain payload where t: "map_of res ''csv'' = Some (JStr payload)"
    by (cases "map_of res ''csv''"; cases "the (map_of res ''csv'')")
       (simp_all add: csv_response_def)
  from assms b r t have p: "payload \<noteq> []" "read_csv w payload = Inr parsed"
    by (simp_all add: csv_response_def)
  show ?thesis
    using st b r t p
    by (simp add: handle_response_def raise_for_status_def write_file_def Let_def)
qed

text \<open>
  Claim C3. When the response that line 181 tests (the first one, or the one to the
  repeated request) has status 400, the reach ends with: the log file of the run longer
  by exactly the text \<^verbatim>\<open><timestamp> - <reach id>\<close> and a line feed, every other file as
  it was; one more error; the same tables in \<open>results\<close>; and the loop going on with the
  next reach.
\<close>

theorem bad_request_logged:
  assumes "get_with_retry w (url_of cfg rid)
             (emit (Fetching rid (i + 1) n) (emit (Progress (i + 1) n) s)) = (Inr resp, s1)"
    and "status_code resp = 400"
    and "0 \<le> throttle_delay cfg \<and> throttle_delay cfg < 9223372036"
  shows "\<exists>s'. process_reach w cfg sv n i rid s = Inr s'
     \<and> files s' = (files s)(LOG_FILE sv \<mapsto>
          (case files s (LOG_FILE sv) of None \<Rightarrow> [] | Some old \<Rightarrow> old)
          @ now_iso w (requests s1) @ '' - '' @ rid @ [CHR 0x0A])
     \<and> errors s' = Suc (errors s)
     \<and> results s' = results s
     \<and> fetch_loop w cfg sv n i (rid # rids) s = fetch_loop w cfg sv n (Suc i) rids s'"
proof -
  let ?s0 = "emit (Fetching rid (i + 1) n) (emit (Progress (i + 1) n) s)"
  from get_with_retry_effect [OF assms(1)]
  have same: "results s1 = results s" "errors s1 = errors s" "files s1 = files s"
    by (simp_all add: emit_def)
  let ?h = "s1\<lparr>trace := trace s1 @ [BadRequest rid (resp_text resp)],
        files := (files s1)(LOG_FILE sv \<mapsto>
           (case files s1 (LOG_FILE sv) of None \<Rightarrow> [] | Some old \<Rightarrow> old)
           @ now_iso w (requests s1) @ '' - '' @ rid @ [CHR 0x0A]),
        errors := Suc (errors s1)\<rparr>"
  let ?s' = "?h\<lparr>clock := clock ?h + throttle_delay cfg,
               trace := trace ?h @ [Sleep (throttle_delay cfg)]\<rparr>"
  have pr: "process_reach w cfg sv n i rid s = Inr ?s'"
    using assms
    by (simp add: process_reach_def Let_def handle_response_400 except_handler_def sleep_def)
  then have "fetch_loop w cfg sv n i (rid # rids) s = fetch_loop w cfg sv n (Suc i) rids ?s'"
    by simp
  with pr same show ?thesis
    by (intro exI [of _ ?s']) simp
qed

theorem bad_request_logged_witness:
  "status_code \<lparr>status_code = 400, retry_after = None, resp_text = ''no such reach'', json_body = None\<rparr> = 400 \<and> 0 \<le> throttle_delay \<lparr>start_date = ''2023-08-01'', end_date = ''2025-05-30'', selected_fields = [''reach_id'', ''wse''], throttle_delay = 1 / 2\<rparr>
   \<and> (\<exists>s'. process_reach \<lparr>http_get = \<lambda>k url. Inr \<lparr>status_code = 400, retry_after = None, resp_text = ''no such reach'', json_body = None\<rparr>, now_iso = \<lambda>k. ''2024-05-01T12:00:00'', read_csv = \<lambda>t. Inl ParserError, to_datetime = \<lambda>c i. Null, to_csv = \<lambda>t. []\<rparr> \<lparr>start_date = ''2023-08-01'', end_date = ''2025-05-30'', selected_fields = [''reach_id'', ''wse''], throttle_delay = 1 / 2\<rparr> ''Nile'' 1 0 ''101'' \<lparr>results = [], errors = 0, files = Map.empty, clock = 0, requests = 0, trace = []\<rparr> = Inr s'
         \<and> files s' (LOG_FILE ''Nile'') = Some (''2024-05-01T12:00:00 - 101'' @ [CHR 0x0A])
         \<and> errors s' = 1
         \<and> results s' = [])"
proof -
  let ?s0 = "emit (Fetching ''101'' (0 + 1) 1) (emit (Progress (0 + 1) 1) \<lparr>results = [], errors = 0, files = Map.empty, clock = 0, requests = 0, trace = []\<rparr>)"
  let ?s1 = "?s0\<lparr>requests := Suc (requests ?s0),
                  trace := trace ?s0 @ [Request (url_of \<lparr>start_date = ''2023-08-01'', end_date = ''2025-05-30'', selected_fields = [''reach_id'', ''wse''], throttle_delay = 1 / 2\<rparr> ''101'')]\<rparr>"
  have g: "get_with_retry \<lparr>http_get = \<lambda>k url. Inr \<lparr>status_code = 400, retry_after = None, resp_text = ''no such reach'', json_body = None\<rparr>, now_iso = \<lambda>k. ''2024-05-01T12:00:00'', read_csv = \<lambda>t. Inl ParserError, to_datetime = \<lambda>c i. Null, to_csv = \<lambda>t. []\<rparr> (url_of \<lparr>start_date = ''2023-08-01'', end_date = ''2025-05-30'', selected_fields = [''reach_id'', ''wse''], throttle_delay = 1 / 2\<rparr> ''101'') ?s0 = (Inr \<lparr>status_code = 400, retry_after = None, resp_text = ''no such reach'', json_body = None\<rparr>, ?s1)"
    by (rule get_with_retry_plain) simp_all
  have st: "status_code \<lparr>status_code = 400, retry_after = None, resp_text = ''no such reach'', json_body = None\<rparr> = 400" by simp
  have d: "0 \<le> throttle_delay \<lparr>start_date = ''2023-08-01'', end_date = ''2025-05-30'', selected_fields = [''reach_id'', ''wse''], throttle_delay = 1 / 2\<rparr>
      \<and> throttle_delay \<lparr>start_date = ''2023-08-01'', end_date = ''2025-05-30'', selected_fields = [''reach_id'', ''wse''], throttle_delay = 1 / 2\<rparr> < 9223372036" by simp
  from bad_request_logged [OF g st d, where sv = "''Nile''" and rids = "[]"] st d show ?thesis
    by (auto simp: emit_def)
qed




section \<open>The combined result\<close>

lemma process_reach_csv:
  assumes "csv_response w (http_get w (requests s) (url_of cfg rid)) parsed"
    and "0 \<le> throttle_delay cfg \<and> throttle_delay cfg < 9223372036"
  shows "process_reach w cfg sv n i rid s =
     Inr (s\<lparr>results := results s @ [clean_time_str w parsed],
            files := (files s)(reach_path sv rid \<mapsto> to_csv w (clean_time_str w parsed)),
            clock := clock s + throttle_delay cfg,
            requests := Suc (requests s),
            trace := trace s @ [Progress (i + 1) n, Fetching rid (i + 1) n,
                                Request (url_of cfg rid), Sleep (throttle_delay cfg)]\<rparr>)"
proof -
  let ?s0 = "emit (Fetching rid (i + 1) n) (emit (Progress (i + 1) n) s)"
  from assms(1) obtain resp where
    r: "http_get w (requests s) (url_of cfg rid) = Inr resp" and c: "csv_response w (Inr resp) parsed"
    by (cases "http_get w (requests s) (url_of cfg rid)") (simp_all add: csv_response_def)
  from c have st: "status_code resp \<noteq> 429" by (simp add: csv_response_def)
  have r0: "http_get w (requests ?s0) (url_of cfg rid) = Inr resp"
    using r by (simp add: emit_def)
  note g = get_with_retry_plain [OF r0 st]
  show ?thesis
    using g assms(2)
    by (simp add: process_reach_def Let_def handle_response_csv [OF c] except_handler_def
          sleep_def emit_def)
qed

lemma fetch_loop_csv:
  assumes "0 \<le> throttle_delay cfg \<and> throttle_delay cfg < 9223372036"
    and "length ps = length rids"
    and "\<forall>j < length rids. csv_response w (http_get w (requests s + j) (url_of cfg (rids ! j))) (ps ! j)"
  shows "\<exists>s'. fetch_loop w cfg sv n i rids s = Inr s'
     \<and> results s' = results s @ map (clean_time_str w) ps
     \<and> errors s' = errors s"
  using assms(2,3)
proof (induction rids arbitrary: ps s i)
  case Nil
  then show ?case by simp
next
  case (Cons rid rids)
  then obtain p ps' where ps: "ps = p # ps'" and len: "length ps' = length rids"
    by (cases ps) simp_all
  from Cons.prems(2) have first: "csv_response w (http_get w (requests s) (url_of cfg rid)) p"
    using ps by force
  let ?s1 = "s\<lparr>results := results s @ [clean_time_str w p],
            files := (files s)(reach_path sv rid \<mapsto> to_csv w (clean_time_str w p)),
            clock := clock s + throttle_delay cfg,
            requests := Suc (requests s),
            trace := trace s @ [Progress (i + 1) n, Fetching rid (i + 1) n,
                                Request (url_of cfg rid), Sleep (throttle_delay cfg)]\<rparr>"
  have step: "process_reach w cfg sv n i rid s = Inr ?s1"
    using first assms(1) by (rule process_reach_csv)
  have rest: "\<forall>j < length rids.
      csv_response w (http_get w (requests ?s1 + j) (url_of cfg (rids ! j))) (ps' ! j)"
  proof (intro allI impI)
    fix j assume "j < length rids"
    then have "Suc j < length (rid # rids)" by simp
    with Cons.prems(2) have
      "csv_response w (http_get w (requests s + Suc j) (url_of cfg ((rid # rids) ! Suc j))) (ps ! Suc j)"
      by blast
    then show "csv_response w (http_get w (requests ?s1 + j) (url_of cfg (rids ! j))) (ps' ! j)"
      using ps by simp
  qed
  from Cons.IH [OF len rest, where i = "Suc i"] obtain s' where
    "fetch_loop w cfg sv n (Suc i) rids ?s1 = Inr s'"
    "results s' = results ?s1 @ map (clean_time_str w) ps'"
    "errors s' = errors ?s1"
    by blast
  with step ps show ?case by simp
qed

lemma rows_pd_concat: "rows (pd_concat ts) = concat (map rows ts)"
  by (simp add: pd_concat_def)

lemma present_results:
  assumes "results s \<noteq> []"
  shows "\<exists>s'. present w sv s = (s', Some (pd_concat (results s)))
     \<and> results s' = results s \<and> errors s' = errors s
     \<and> files s' (combined_path sv) = Some (to_csv w (pd_concat (results s)))
     \<and> (\<exists>evs. trace s' = trace s @ evs)"
  using assms by (simp add: present_def Let_def write_file_def emit_def)



text \<open>
  Claim C4. When every request of the run is answered with status 200 and a non-empty
  CSV text that \<^verbatim>\<open>pd.read_csv\<close> reads, the table of reach \<open>j\<close> being what lines 193-195
  make of the \<open>j\<close>-th parsed text, the combined result is \<^verbatim>\<open>pd.concat\<close> of these tables in
  the order of the reaches: its rows are their rows, table after table and in each
  table's own order, and their number is the sum of the tables' numbers of rows. It is
  also what the combined file holds, and no error is counted.
\<close>

theorem combined_is_concatenation:
  assumes "reach_ids_of df_geo filter_column filter_value = Inr rids"
    and "rids \<noteq> []"
    and "safe_val filter_value = Inr sv"
    and "0 \<le> throttle_delay cfg \<and> throttle_delay cfg < 9223372036"
    and "length ps = length rids"
    and "\<forall>j < length rids.
           csv_response w (http_get w (requests s + j) (url_of cfg (rids ! j))) (ps ! j)"
  shows "\<exists>s'. process_data w cfg df_geo filter_column filter_value s
              = Inr (s', Some (pd_concat (map (clean_time_str w) ps)))
     \<and> results s' = map (clean_time_str w) ps
     \<and> errors s' = 0
     \<and> files s' (combined_path sv) = Some (to_csv w (pd_concat (map (clean_time_str w) ps)))
     \<and> rows (pd_concat (map (clean_time_str w) ps))
         = concat (map (\<lambda>p. rows (clean_time_str w p)) ps)
     \<and> length (rows (pd_concat (map (clean_time_str w) ps)))
         = sum_list (map (\<lambda>p. length (rows (clean_time_str w p))) ps)"
proof -
  let ?s2 = "(emit (Makedirs (OUTPUT_DIR sv)) (emit (Processing (length rids)) s))
               \<lparr>results := [], errors := 0\<rparr>"
  let ?ts = "map (clean_time_str w) ps"
  have rq: "requests ?s2 = requests s" by (simp add: emit_def)
  from assms(6) have ok: "\<forall>j < length rids.
           csv_response w (http_get w (requests ?s2 + j) (url_of cfg (rids ! j))) (ps ! j)"
    unfolding rq .
  from fetch_loop_csv [OF assms(4) assms(5) ok, where sv = sv and n = "length rids" and i = 0] obtain s3 where
    l: "fetch_loop w cfg sv (length rids) 0 rids ?s2 = Inr s3"
    and r3: "results s3 = ?ts" and e3: "errors s3 = 0"
    by auto
  from assms(2,5) have "ps \<noteq> []" by auto
  then have ne: "results s3 \<noteq> []" using r3 by simp
  from present_results [OF ne, where w = w and sv = sv] obtain s' where
    p: "present w sv s3 = (s', Some (pd_concat (results s3)))"
    and r': "results s' = results s3" and e': "errors s' = errors s3"
    and f': "files s' (combined_path sv) = Some (to_csv w (pd_concat (results s3)))"
    by blast
  have pd: "process_data w cfg df_geo filter_column filter_value s = Inr (s', Some (pd_concat ?ts))"
    using assms(1,2,3) l p r3 by (simp add: process_data_def Let_def)
  have rw: "rows (pd_concat ?ts) = concat (map (\<lambda>p. rows (clean_time_str w p)) ps)"
    by (simp add: rows_pd_concat comp_def)
  have ln: "length (rows (pd_concat ?ts))
         = sum_list (map (\<lambda>p. length (rows (clean_time_str w p))) ps)"
    unfolding rw by (simp add: length_concat comp_def)
  from pd r' r3 e' e3 f' rw ln show ?thesis by simp
qed

theorem combined_is_concatenation_witness:
  "\<exists>s'. process_data \<lparr>http_get = \<lambda>k url. Inr \<lparr>status_code = 200, retry_after = None, resp_text = [], json_body = Some (JObj [(''results'', JObj [(''csv'', JStr (if k = 0 then ''a'' else ''b''))])])\<rparr>, now_iso = \<lambda>k. ''2024-05-01T12:00:00'', read_csv = \<lambda>t. Inr (if t = ''a'' then \<lparr>columns = [''wse''], rows = [[(''wse'', IntCell 5)], [(''wse'', IntCell 6)]]\<rparr> else \<lparr>columns = [''wse''], rows = [[(''wse'', IntCell 7)]]\<rparr>), to_datetime = \<lambda>c i. Null, to_csv = \<lambda>t. []\<rparr> \<lparr>start_date = ''2023-08-01'', end_date = ''2025-05-30'', selected_fields = [''reach_id'', ''wse''], throttle_delay = 1 / 2\<rparr> \<lparr>columns = [''river_name'', ''reach_id''], rows = [[(''river_name'', StrCell ''Nile''), (''reach_id'', IntCell 101)], [(''river_name'', StrCell ''Nile''), (''reach_id'', IntCell 102)]]\<rparr> ''river_name'' (StrCell ''Nile'') \<lparr>results = [], errors = 0, files = Map.empty, clock = 0, requests = 0, trace = []\<rparr>
          = Inr (s', Some \<lparr>columns = [''wse''],
                   rows = [[(''wse'', IntCell 5)], [(''wse'', IntCell 6)], [(''wse'', IntCell 7)]]\<rparr>)
       \<and> errors s' = 0"
proof -
  let ?w = "\<lparr>http_get = \<lambda>k url. Inr \<lparr>status_code = 200, retry_after = None, resp_text = [], json_body = Some (JObj [(''results'', JObj [(''csv'', JStr (if k = 0 then ''a'' else ''b''))])])\<rparr>, now_iso = \<lambda>k. ''2024-05-01T12:00:00'', read_csv = \<lambda>t. Inr (if t = ''a'' then \<lparr>columns = [''wse''], rows = [[(''wse'', IntCell 5)], [(''wse'', IntCell 6)]]\<rparr> else \<lparr>columns = [''wse''], rows = [[(''wse'', IntCell 7)]]\<rparr>), to_datetime = \<lambda>c i. Null, to_csv = \<lambda>t. []\<rparr>"
  have h1: "reach_ids_of \<lparr>columns = [''river_name'', ''reach_id''], rows = [[(''river_name'', StrCell ''Nile''), (''reach_id'', IntCell 101)], [(''river_name'', StrCell ''Nile''), (''reach_id'', IntCell 102)]]\<rparr> ''river_name'' (StrCell ''Nile'') = Inr [''101'', ''102'']"
    by (simp add: reach_ids_of_def select_rows_def get_column_def dropna_def cell_eq_def
          cell_of_def py_str_def digits.simps)
  have h2: "[''101'', ''102''] \<noteq> []" by simp
  have h3: "safe_val (StrCell ''Nile'') = Inr ''Nile''"
    by (simp add: safe_val_def isalnum_def)
  have h4: "0 \<le> throttle_delay \<lparr>start_date = ''2023-08-01'', end_date = ''2025-05-30'', selected_fields = [''reach_id'', ''wse''], throttle_delay = 1 / 2\<rparr>
      \<and> throttle_delay \<lparr>start_date = ''2023-08-01'', end_date = ''2025-05-30'', selected_fields = [''reach_id'', ''wse''], throttle_delay = 1 / 2\<rparr> < 9223372036" by simp
  have h5: "length [\<lparr>columns = [''wse''], rows = [[(''wse'', IntCell 5)], [(''wse'', IntCell 6)]]\<rparr>, \<lparr>columns = [''wse''], rows = [[(''wse'', IntCell 7)]]\<rparr>] = length [''101'', ''102'']" by simp
  have h6: "\<forall>j < length [''101'', ''102''].
      csv_response ?w (http_get ?w (requests \<lparr>results = [], errors = 0, files = Map.empty, clock = 0, requests = 0, trace = []\<rparr> + j) (url_of \<lparr>start_date = ''2023-08-01'', end_date = ''2025-05-30'', selected_fields = [''reach_id'', ''wse''], throttle_delay = 1 / 2\<rparr> ([''101'', ''102''] ! j)))
        ([\<lparr>columns = [''wse''], rows = [[(''wse'', IntCell 5)], [(''wse'', IntCell 6)]]\<rparr>, \<lparr>columns = [''wse''], rows = [[(''wse'', IntCell 7)]]\<rparr>] ! j)"
    by (auto simp: csv_response_def less_Suc_eq numeral_2_eq_2)
  from combined_is_concatenation [OF h1 h2 h3 h4 h5 h6]
  show ?thesis
    by (auto simp: clean_time_str_def pd_concat_def)
qed





end
